theory Spec2Isabelle
  imports Main "HOL-Library.Sublist"
begin

section \<open>goman: a man page parser\<close>

text \<open>
  A shallow embedding of the roff scanning and section extraction of goman. The
  repository holds the parser in two revisions: \<^verbatim>\<open>src/goman.go\<close> and a later
  revision of the same file (\<^verbatim>\<open>src/unnamed/part_003\<close>, the one the tests
  are written against). The macro scanner and the section locator are the same in both.
  The revisions differ in three places: \<^verbatim>\<open>stripMacros\<close> (which discards its
  result in goman.go and is \<^verbatim>\<open>stripmacros\<close>, returning it, in the later
  revision), \<^verbatim>\<open>parseName\<close> (the later revision trims trailing artifacts) and the
  line collection of \<^verbatim>\<open>parseOpts\<close> (the later revision tests the length of
  a line before reading its first byte). Definitions keep the names of goman.go; where the
  later revision has a function of the same name with a different body, its embedding
  carries the suffix \<open>_p3\<close>.

  A Go string is a sequence of bytes: \<^typ>\<open>string\<close>, a list of 8-bit characters.
  Offsets are byte offsets (\<^typ>\<open>nat\<close>; a document is far shorter than the range of
  Go's 64-bit \<^verbatim>\<open>int\<close>).
\<close>

subsection \<open>Characters\<close>

abbreviation NL :: char where "NL \<equiv> CHR 0x0A"
abbreviation CR :: char where "CR \<equiv> CHR 0x0D"
abbreviation SP :: char where "SP \<equiv> CHR 0x20"
abbreviation TAB :: char where "TAB \<equiv> CHR 0x09"
abbreviation DOT :: char where "DOT \<equiv> CHR 0x2E"
abbreviation DASH :: char where "DASH \<equiv> CHR 0x2D"
abbreviation BSL :: char where "BSL \<equiv> CHR 0x5C"
abbreviation COMMA :: char where "COMMA \<equiv> CHR 0x2C"

text \<open>The character class \<^verbatim>\<open>[A-Z]\<close> of the regular expressions.\<close>

definition isUpper :: "char \<Rightarrow> bool" where
  "isUpper c \<longleftrightarrow> (65::nat) \<le> of_char c \<and> of_char c \<le> (90::nat)"

subsection \<open>The functions of Go's \<^verbatim>\<open>strings\<close> package that the parser calls\<close>

text \<open>
  \<^verbatim>\<open>strings.Split(s, sep)\<close> for a separator of one byte: the pieces between the
  separators, one more than there are separators (so never an empty list).
\<close>

fun Split :: "string \<Rightarrow> char \<Rightarrow> string list" where
  "Split [] sep = [[]]"
| "Split (c # cs) sep =
     (if c = sep then [] # Split cs sep
      else (case Split cs sep of
              [] \<Rightarrow> [[c]]
            | l # ls \<Rightarrow> (c # l) # ls))"

text \<open>
  \<^verbatim>\<open>strings.IndexAny(s, chars)\<close>: the index of the first byte of \<open>s\<close> that is
  in \<open>chars\<close>; Go's \<open>-1\<close> is \<open>None\<close>. \<^verbatim>\<open>strings.Index(s, "-")\<close> is the case
  of one character.
\<close>

fun IndexAny :: "string \<Rightarrow> string \<Rightarrow> nat option" where
  "IndexAny [] chars = None"
| "IndexAny (c # cs) chars =
     (if c \<in> set chars then Some 0 else map_option Suc (IndexAny cs chars))"

definition Index :: "string \<Rightarrow> char \<Rightarrow> nat option" where
  "Index s c = IndexAny s [c]"

definition TrimLeft :: "string \<Rightarrow> string \<Rightarrow> string" where
  "TrimLeft s cutset = dropWhile (\<lambda>c. c \<in> set cutset) s"

definition TrimRight :: "string \<Rightarrow> string \<Rightarrow> string" where
  "TrimRight s cutset = rev (dropWhile (\<lambda>c. c \<in> set cutset) (rev s))"

definition Trim :: "string \<Rightarrow> string \<Rightarrow> string" where
  "Trim s cutset = TrimRight (TrimLeft s cutset) cutset"

text \<open>
  \<^verbatim>\<open>strings.TrimSpace\<close> removes leading and trailing white space as Unicode
  defines it (\<^verbatim>\<open>unicode.IsSpace\<close>): the six ASCII characters tab, line feed,
  vertical tab, form feed, carriage return and space, and the code points U+0085, U+00A0,
  U+1680, U+2000 to U+200A, U+2028, U+2029, U+202F, U+205F and U+3000, which are two or
  three bytes each in UTF-8.
\<close>

definition space_runes :: "string list" where
  "space_runes =
     [[TAB], [NL], [CHR 0x0B], [CHR 0x0C], [CR], [SP],
      [CHR 0xC2, CHR 0x85], [CHR 0xC2, CHR 0xA0],
      [CHR 0xE1, CHR 0x9A, CHR 0x80],
      [CHR 0xE2, CHR 0x80, CHR 0x80], [CHR 0xE2, CHR 0x80, CHR 0x81],
      [CHR 0xE2, CHR 0x80, CHR 0x82], [CHR 0xE2, CHR 0x80, CHR 0x83],
      [CHR 0xE2, CHR 0x80, CHR 0x84], [CHR 0xE2, CHR 0x80, CHR 0x85],
      [CHR 0xE2, CHR 0x80, CHR 0x86], [CHR 0xE2, CHR 0x80, CHR 0x87],
      [CHR 0xE2, CHR 0x80, CHR 0x88], [CHR 0xE2, CHR 0x80, CHR 0x89],
      [CHR 0xE2, CHR 0x80, CHR 0x8A],
      [CHR 0xE2, CHR 0x80, CHR 0xA8], [CHR 0xE2, CHR 0x80, CHR 0xA9],
      [CHR 0xE2, CHR 0x80, CHR 0xAF], [CHR 0xE2, CHR 0x81, CHR 0x9F],
      [CHR 0xE3, CHR 0x80, CHR 0x80]]"

text \<open>
  Removing the runes of a list from the front of a string, for as long as one of them is
  there. An empty entry is never taken, so every step shortens the string.
\<close>

function strip_runes :: "string list \<Rightarrow> string \<Rightarrow> string" where
  "strip_runes rs s =
     (case find (\<lambda>r. r \<noteq> [] \<and> prefix r s) rs of
        None \<Rightarrow> s
      | Some r \<Rightarrow> strip_runes rs (drop (length r) s))"
  by pat_completeness auto
termination
proof (relation "measure (\<lambda>(rs, s). length s)")
  show "wf (measure (\<lambda>(rs, s). length s))" by simp
next
  fix rs :: "string list" and s r :: string
  assume "find (\<lambda>r. r \<noteq> [] \<and> prefix r s) rs = Some r"
  then have "r \<noteq> []" and "prefix r s"
    by (auto simp: find_Some_iff)
  then have "0 < length r" and "length r \<le> length s"
    by (simp_all add: prefix_length_le)
  then have "length s - length r < length s"
    by arith
  then have "length (drop (length r) s) < length s"
    by simp
  then show "((rs, drop (length r) s), (rs, s)) \<in> measure (\<lambda>(rs, s). length s)"
    by simp
qed

declare strip_runes.simps [simp del]

definition TrimSpace :: "string \<Rightarrow> string" where
  "TrimSpace s =
     rev (strip_runes (map rev space_runes) (rev (strip_runes space_runes s)))"

text \<open>
  \<^verbatim>\<open>strings.NewReplacer("\x0D", "").Replace(data)\<close>: every carriage return
  is removed.
\<close>

definition remove_CR :: "string \<Rightarrow> string" where
  "remove_CR data = filter (\<lambda>c. c \<noteq> CR) data"

text \<open>
  A slice expression \<^verbatim>\<open>s[lo:hi]\<close> of Go, where it is in range
  (\<open>lo \<le> hi \<le> length s\<close>); the places where the program can leave that range
  test for it first and panic.
\<close>

definition slice :: "string \<Rightarrow> nat \<Rightarrow> nat \<Rightarrow> string" where
  "slice s lo hi = take (hi - lo) (drop lo s)"

subsection \<open>Data model\<close>

datatype MacroType = Unrecognized | B | IP | PP | SH | TP

text \<open>
  The table \<^verbatim>\<open>MacroTypes\<close>. A Go map returns the zero value of the value type
  for a missing key, and zero is the constant the declaration skips
  (\<^verbatim>\<open>_ MacroType = iota\<close>): a name outside the table gets a kind that is
  none of the five.
\<close>

definition MacroTypes :: "string \<Rightarrow> MacroType" where
  "MacroTypes str =
     (if str = ''B'' then B
      else if str = ''IP'' then IP
      else if str = ''PP'' then PP
      else if str = ''SH'' then SH
      else if str = ''TP'' then TP
      else Unrecognized)"

text \<open>
  A located macro: \<^verbatim>\<open>loc\<close> is the two-element slice \<open>[start, end]\<close> of the
  source, here the fields \<open>loc0\<close> and \<open>loc1\<close>.
\<close>

record Macro =
  loc0 :: nat
  loc1 :: nat
  mtype :: MacroType

record Opt =
  Name :: string
  Desc :: string

record ManPage =
  Name :: string
  Path :: string
  Desc :: string
  Synopsis :: string
  data :: string
  Opts :: "Opt list"

datatype ParseError = ParseError (errmsg: string)

text \<open>The run-time panics of Go that the parser can raise.\<close>

datatype panic = IndexOutOfRange | SliceBoundsOutOfRange

subsection \<open>Regular expressions anchored at a line start\<close>

text \<open>
  Every pattern of the parser is compiled with \<^verbatim>\<open>regexp.MustCompilePOSIX\<close>
  and starts with \<^verbatim>\<open>^\<close>. In POSIX syntax \<^verbatim>\<open>^\<close> matches at the start
  of the text and after every line feed, and the match returned is the leftmost one, the
  longest at its position. \<open>FindStringIndex re bol i s\<close> scans \<open>s\<close>, whose first byte
  has index \<open>i\<close>, and \<open>bol\<close> says whether that byte starts a line; \<open>re\<close> gives the
  length of the longest match of the rest of the pattern at the head of a string. All
  patterns here consume at least one byte, so there is no match in the empty rest.
\<close>

fun FindStringIndex ::
  "(string \<Rightarrow> nat option) \<Rightarrow> bool \<Rightarrow> nat \<Rightarrow> string \<Rightarrow> (nat \<times> nat) option" where
  "FindStringIndex re bol i [] = None"
| "FindStringIndex re bol i (c # cs) =
     (case (if bol then re (c # cs) else None) of
        Some n \<Rightarrow> Some (i, i + n)
      | None \<Rightarrow> FindStringIndex re (c = NL) (Suc i) cs)"

text \<open>
  \<^verbatim>\<open>\.[A-Z]+ \<close> (with the space at its end): a dot, the whole run of capital
  letters, which must not be empty, and one space.
\<close>

definition macro_re :: "string \<Rightarrow> nat option" where
  "macro_re s =
     (case s of
        [] \<Rightarrow> None
      | c # cs \<Rightarrow>
          (if c = DOT \<and> takeWhile isUpper cs \<noteq> []
              \<and> (case dropWhile isUpper cs of [] \<Rightarrow> False | d # ds \<Rightarrow> d = SP)
           then Some (length (takeWhile isUpper cs) + 2)
           else None))"

text \<open>
  \<^verbatim>\<open>\.SH *\<close> followed by the name. The parser passes the names
  \<^verbatim>\<open>NAME\<close>, \<^verbatim>\<open>DESCRIPTION\<close>, \<^verbatim>\<open>SYNOPSIS\<close> and
  \<^verbatim>\<open>(OPTIONS|SWITCHES)\<close>: a name is modelled as the list of its alternatives,
  each a literal text. The match may take any number \<open>k\<close> of the spaces after
  \<^verbatim>\<open>.SH\<close> and then one alternative; the longest such match is returned.
\<close>

definition section_ends :: "string list \<Rightarrow> string \<Rightarrow> nat list" where
  "section_ends name rest =
     concat (map (\<lambda>k. map (\<lambda>a. 3 + k + length a)
                            (filter (\<lambda>a. prefix a (drop k rest)) name))
                 [0 ..< Suc (length (takeWhile (\<lambda>c. c = SP) rest))])"

definition section_re :: "string list \<Rightarrow> string \<Rightarrow> nat option" where
  "section_re name s =
     (if prefix ''.SH'' s
      then (case section_ends name (drop 3 s) of
              [] \<Rightarrow> None
            | e # es \<Rightarrow> Some (fold max es e))
      else None)"

subsection \<open>Macro scanner and section locator\<close>

text \<open>
  \<^verbatim>\<open>nextMacroOffset\<close>: the pattern is searched in \<^verbatim>\<open>man.data[offset:]\<close>,
  so the byte at \<open>offset\<close> counts as the start of a line whatever precedes it.
  (Go panics on the slice when \<open>offset\<close> exceeds the length of the data; the offsets the
  parser passes are ends of matches in the data and never do, see
  \<open>findSection_le\<close> and \<open>nextMacroOffset_bounds\<close>.)
\<close>

definition nextMacroOffset :: "string \<Rightarrow> nat \<Rightarrow> Macro option" where
  "nextMacroOffset d offset =
     (case FindStringIndex macro_re True 0 (drop offset d) of
        Some (i0, i1) \<Rightarrow>
          Some \<lparr>loc0 = offset + i0, loc1 = offset + i1,
                mtype = MacroTypes (slice d (offset + i0 + 1) (offset + i1 - 1))\<rparr>
      | None \<Rightarrow> None)"

definition nextMacro :: "string \<Rightarrow> Macro \<Rightarrow> Macro option" where
  "nextMacro d macro = nextMacroOffset d (loc1 macro)"

definition findSection :: "string \<Rightarrow> string list \<Rightarrow> ParseError + nat" where
  "findSection d name =
     (case FindStringIndex (section_re name) True 0 d of
        Some (i0, i1) \<Rightarrow> Inr i1
      | None \<Rightarrow> Inl (ParseError ''Error locating section''))"

text \<open>A match of the scanner lies within the text, at or after the start of the search.\<close>

lemma FindStringIndex_Some:
  assumes "FindStringIndex re bol i s = Some (a, b)"
  shows "\<exists>n. i \<le> a \<and> a - i < length s \<and> re (drop (a - i) s) = Some n \<and> b = a + n"
  using assms
proof (induction s arbitrary: bol i)
  case Nil
  then show ?case by simp
next
  case (Cons c cs)
  show ?case
  proof (cases "if bol then re (c # cs) else None")
    case (Some n)
    with Cons.prems have "a = i" and "b = i + n" by auto
    moreover from Some have "re (c # cs) = Some n" by (auto split: if_splits)
    ultimately show ?thesis by simp
  next
    case None
    with Cons.prems have "FindStringIndex re (c = NL) (Suc i) cs = Some (a, b)" by simp
    from Cons.IH [OF this] obtain n where
      n: "Suc i \<le> a" "a - Suc i < length cs" "re (drop (a - Suc i) cs) = Some n" "b = a + n"
      by blast
    from n(1) have "a - i = Suc (a - Suc i)" by arith
    with n show ?thesis by auto
  qed
qed

lemma macro_re_Some:
  assumes "macro_re s = Some n"
  shows "3 \<le> n \<and> n \<le> length s"
proof -
  from assms obtain c cs where s: "s = c # cs"
    by (cases s) (auto simp: macro_re_def)
  define u where "u = takeWhile isUpper cs"
  define r where "r = dropWhile isUpper cs"
  have cs: "cs = u @ r"
    by (simp add: u_def r_def)
  from assms s have "u \<noteq> [] \<and> r \<noteq> [] \<and> n = length u + 2"
    by (cases r)
       (auto simp: macro_re_def u_def [symmetric] r_def [symmetric] split: if_splits)
  then have "Suc 0 \<le> length u" and "Suc 0 \<le> length r" and "n = length u + 2"
    by (simp_all add: Suc_le_eq)
  moreover have "length s = Suc (length u + length r)"
    by (simp add: s cs)
  ultimately show ?thesis by arith
qed

lemma nextMacroOffset_bounds:
  assumes "nextMacroOffset d offset = Some mc"
  shows "offset \<le> loc0 mc \<and> loc0 mc + 3 \<le> loc1 mc \<and> loc1 mc \<le> length d"
proof -
  from assms obtain i0 i1 where
    f: "FindStringIndex macro_re True 0 (drop offset d) = Some (i0, i1)"
    and l: "loc0 mc = offset + i0" "loc1 mc = offset + i1"
    by (auto simp: nextMacroOffset_def split: option.splits)
  from FindStringIndex_Some [OF f] obtain n where
    n: "i0 < length (drop offset d)" "macro_re (drop i0 (drop offset d)) = Some n" "i1 = i0 + n"
    by auto
  from macro_re_Some [OF n(2)] have "3 \<le> n" and "n \<le> length (drop i0 (drop offset d))"
    by simp_all
  with n l show ?thesis by simp
qed

subsection \<open>Section extractor\<close>

text \<open>
  \<^verbatim>\<open>stripMacros\<close> of goman.go has no result: it assigns the replaced text to
  its own parameter, a copy of the caller's string, and returns. The caller's string is
  what it was.
\<close>

definition stripMacros :: "string \<Rightarrow> unit" where
  "stripMacros str = ()"

text \<open>
  \<^verbatim>\<open>stripmacros\<close> of the later revision returns
  \<^verbatim>\<open>re.ReplaceAllString(str, "")\<close> for the pattern
  \<^verbatim>\<open>^\.[A-Z]+ *\<close>: at a line start a dot, the run of capital letters (not
  empty) and the run of spaces after it are removed. The match holds no line feed, so the
  byte after a match does not start a line.
\<close>

definition strip_re :: "string \<Rightarrow> nat option" where
  "strip_re s =
     (case s of
        [] \<Rightarrow> None
      | c # cs \<Rightarrow>
          (if c = DOT \<and> takeWhile isUpper cs \<noteq> []
           then Some (1 + length (takeWhile isUpper cs)
                        + length (takeWhile (\<lambda>x. x = SP) (dropWhile isUpper cs)))
           else None))"

function ReplaceAll_strip :: "bool \<Rightarrow> string \<Rightarrow> string" where
  "ReplaceAll_strip bol [] = []"
| "ReplaceAll_strip bol (c # cs) =
     (case (if bol then strip_re (c # cs) else None) of
        Some n \<Rightarrow> ReplaceAll_strip False (drop (n - 1) cs)
      | None \<Rightarrow> c # ReplaceAll_strip (c = NL) cs)"
  by pat_completeness auto
termination
  by (relation "measure (\<lambda>(bol, s). length s)") auto

definition stripmacros :: "string \<Rightarrow> string" where
  "stripmacros str = ReplaceAll_strip True str"

text \<open>
  The loop of \<^verbatim>\<open>getSection\<close>: the value of \<^verbatim>\<open>mc\<close> when the loop
  is left, the first macro of kind \<open>SH\<close> in the iteration from \<open>offset\<close>, or
  \<^verbatim>\<open>nil\<close>.
\<close>

function getSection_loop :: "string \<Rightarrow> nat \<Rightarrow> Macro option" where
  "getSection_loop d offset =
     (case nextMacroOffset d offset of
        None \<Rightarrow> None
      | Some mc \<Rightarrow> if mtype mc = SH then Some mc else getSection_loop d (loc1 mc))"
  by pat_completeness auto
termination
proof (relation "measure (\<lambda>(d, offset). length d - offset)")
  show "wf (measure (\<lambda>(d, offset). length d - offset))" by simp
next
  fix d :: string and offset :: nat and mc :: Macro
  assume "nextMacroOffset d offset = Some mc"
  from nextMacroOffset_bounds [OF this]
  have "length d - loc1 mc < length d - offset" by arith
  then show "((d, loc1 mc), (d, offset)) \<in> measure (\<lambda>(d, offset). length d - offset)"
    by simp
qed

declare getSection_loop.simps [simp del]

definition section_text :: "string \<Rightarrow> nat \<Rightarrow> string" where
  "section_text d start =
     (case getSection_loop d start of
        None \<Rightarrow> drop start d
      | Some mc \<Rightarrow> slice d start (loc0 mc))"

definition getSection :: "ManPage \<Rightarrow> string list \<Rightarrow> string" where
  "getSection m sectname =
     (case findSection (data m) sectname of
        Inl err \<Rightarrow> TrimSpace ''N/A''
      | Inr idx \<Rightarrow>
          (let dat = section_text (data m) idx;
               u = stripMacros dat
           in TrimSpace dat))"

definition getSection_p3 :: "ManPage \<Rightarrow> string list \<Rightarrow> string" where
  "getSection_p3 m sectname =
     (case findSection (data m) sectname of
        Inl err \<Rightarrow> TrimSpace ''N/A''
      | Inr idx \<Rightarrow>
          (let dat = section_text (data m) idx;
               dat = stripmacros dat
           in TrimSpace dat))"

subsection \<open>Field parsers\<close>

text \<open>
  \<^verbatim>\<open>strings.Split(...)[0]\<close>: the result of \<open>Split\<close> is never empty
  (\<open>Split_not_Nil\<close>), so its first element is there.
\<close>

definition parseName :: "ManPage \<Rightarrow> ManPage" where
  "parseName m = m\<lparr>Name := hd (Split (getSection m [''NAME'']) SP)\<rparr>"

definition parseName_p3 :: "ManPage \<Rightarrow> ManPage" where
  "parseName_p3 m =
     (let name = hd (Split (getSection_p3 m [''NAME'']) SP)
      in m\<lparr>Name := TrimRight name [SP, BSL, COMMA]\<rparr>)"

definition parseDesc :: "ManPage \<Rightarrow> ManPage" where
  "parseDesc m = m\<lparr>Desc := getSection m [''DESCRIPTION'']\<rparr>"

definition parseDesc_p3 :: "ManPage \<Rightarrow> ManPage" where
  "parseDesc_p3 m = m\<lparr>Desc := getSection_p3 m [''DESCRIPTION'']\<rparr>"

definition parseSynopsis :: "ManPage \<Rightarrow> ManPage" where
  "parseSynopsis m = m\<lparr>Synopsis := getSection m [''SYNOPSIS'']\<rparr>"

definition parseSynopsis_p3 :: "ManPage \<Rightarrow> ManPage" where
  "parseSynopsis_p3 m = m\<lparr>Synopsis := getSection_p3 m [''SYNOPSIS'']\<rparr>"

subsection \<open>Option parser\<close>

text \<open>
  The inner loop of \<^verbatim>\<open>parseOpts\<close> over the lines after a macro. goman.go
  reads \<^verbatim>\<open>line[0]\<close> of every line, which panics on a line of length zero; the
  later revision tests \<^verbatim>\<open>len(line) == 0\<close> first and leaves the loop.
\<close>

fun collect_lines :: "string list \<Rightarrow> string \<Rightarrow> panic + string" where
  "collect_lines [] opt = Inr opt"
| "collect_lines (line # lines) opt =
     (case line of
        [] \<Rightarrow> Inl IndexOutOfRange
      | c # cs \<Rightarrow> if c = DOT then Inr opt else collect_lines lines (opt @ SP # line))"

fun collect_lines_p3 :: "string list \<Rightarrow> string \<Rightarrow> string" where
  "collect_lines_p3 [] opt = opt"
| "collect_lines_p3 (line # lines) opt =
     (if length line = 0 \<or> hd line = DOT then opt
      else collect_lines_p3 lines (opt @ SP # line))"

text \<open>
  The end of the loop body (\<^verbatim>\<open>// Grab '-<optname>\n'\<close>), the same in both
  revisions. \<^verbatim>\<open>spc\<close> is an index into \<^verbatim>\<open>opt[idx:]\<close>, and after
  \<^verbatim>\<open>spc += 1\<close> it is used as an index into \<^verbatim>\<open>opt\<close>: the slice
  \<^verbatim>\<open>opt[idx:spc]\<close> panics when \<open>idx\<close> is greater than \<open>spc\<close>. The result
  is the option to append, if there is one.
\<close>

definition grab :: "string \<Rightarrow> panic + Opt option" where
  "grab opt0 =
     (let opt = TrimLeft opt0 [SP] in
      case Index opt DASH of
        None \<Rightarrow> Inr None
      | Some idx \<Rightarrow>
          (case IndexAny (drop idx opt) [CR, SP] of
             None \<Rightarrow> Inr None
           | Some spc0 \<Rightarrow>
               (let spc = spc0 + 1 in
                if idx \<le> spc \<and> spc \<le> length opt
                then Inr (Some \<lparr>Opt.Name = slice opt idx spc,
                                 Opt.Desc = Trim (drop spc opt) [SP]\<rparr>)
                else Inl SliceBoundsOutOfRange)))"

text \<open>
  The outer loop, from \<^verbatim>\<open>mc := m.nextMacroOffset(idx)\<close> on; \<open>opts\<close> is
  \<^verbatim>\<open>m.Opts\<close>, to which the loop appends. The line collection is a parameter,
  the one place where the revisions differ.
\<close>

function parseOpts_loop ::
  "(string list \<Rightarrow> string \<Rightarrow> panic + string) \<Rightarrow> string \<Rightarrow> nat \<Rightarrow> Opt list
     \<Rightarrow> panic + Opt list" where
  "parseOpts_loop collect d offset opts =
     (case nextMacroOffset d offset of
        None \<Rightarrow> Inr opts
      | Some mc \<Rightarrow>
          if mtype mc = SH then Inr opts
          else if \<not> (mtype mc = B \<or> mtype mc = IP) then Inr opts
          else (case collect (Split (drop (loc1 mc) d) NL) [] of
                  Inl p \<Rightarrow> Inl p
                | Inr opt \<Rightarrow>
                    (case grab opt of
                       Inl p \<Rightarrow> Inl p
                     | Inr None \<Rightarrow> parseOpts_loop collect d (loc1 mc) opts
                     | Inr (Some x) \<Rightarrow> parseOpts_loop collect d (loc1 mc) (opts @ [x]))))"
  by pat_completeness auto
termination
proof (relation "measure (\<lambda>(collect, d, offset, opts). length d - offset)")
  show "wf (measure (\<lambda>(collect, d, offset, opts). length d - offset))" by simp
next
  fix collect :: "string list \<Rightarrow> string \<Rightarrow> panic + string"
    and d :: string and offset :: nat and opts :: "Opt list" and mc :: Macro
  assume "nextMacroOffset d offset = Some mc"
  from nextMacroOffset_bounds [OF this]
  have "length d - loc1 mc < length d - offset" by arith
  then show "((collect, d, loc1 mc, opts), (collect, d, offset, opts))
               \<in> measure (\<lambda>(collect, d, offset, opts). length d - offset)"
    by simp
next
  fix collect :: "string list \<Rightarrow> string \<Rightarrow> panic + string"
    and d :: string and offset :: nat and opts :: "Opt list" and mc :: Macro and x :: Opt
  assume "nextMacroOffset d offset = Some mc"
  from nextMacroOffset_bounds [OF this]
  have "length d - loc1 mc < length d - offset" by arith
  then show "((collect, d, loc1 mc, opts @ [x]), (collect, d, offset, opts))
               \<in> measure (\<lambda>(collect, d, offset, opts). length d - offset)"
    by simp
qed

declare parseOpts_loop.simps [simp del]

text \<open>
  The head of \<^verbatim>\<open>parseOpts\<close>: the offset after an OPTIONS or SWITCHES heading,
  else after a DESCRIPTION heading, else the function returns.
\<close>

definition opts_section :: "ManPage \<Rightarrow> nat option" where
  "opts_section m =
     (case findSection (data m) [''OPTIONS'', ''SWITCHES''] of
        Inr idx \<Rightarrow> Some idx
      | Inl err \<Rightarrow>
          (case findSection (data m) [''DESCRIPTION''] of
             Inr idx \<Rightarrow> Some idx
           | Inl err \<Rightarrow> None))"

definition parseOpts :: "ManPage \<Rightarrow> panic + ManPage" where
  "parseOpts m =
     (case opts_section m of
        None \<Rightarrow> Inr m
      | Some idx \<Rightarrow>
          (case parseOpts_loop collect_lines (data m) idx (Opts m) of
             Inl p \<Rightarrow> Inl p
           | Inr opts \<Rightarrow> Inr (m\<lparr>Opts := opts\<rparr>)))"

definition parseOpts_p3 :: "ManPage \<Rightarrow> panic + ManPage" where
  "parseOpts_p3 m =
     (case opts_section m of
        None \<Rightarrow> Inr m
      | Some idx \<Rightarrow>
          (case parseOpts_loop (\<lambda>lines opt. Inr (collect_lines_p3 lines opt))
                  (data m) idx (Opts m) of
             Inl p \<Rightarrow> Inl p
           | Inr opts \<Rightarrow> Inr (m\<lparr>Opts := opts\<rparr>)))"

subsection \<open>The ManPage aggregate\<close>

definition parse :: "ManPage \<Rightarrow> string \<Rightarrow> panic + ManPage" where
  "parse man dat =
     (let man = man\<lparr>data := remove_CR dat\<rparr>;
          man = parseName man;
          man = parseDesc man;
          man = parseSynopsis man
      in parseOpts man)"

definition parse_p3 :: "ManPage \<Rightarrow> string \<Rightarrow> panic + ManPage" where
  "parse_p3 man dat =
     (let man = man\<lparr>data := remove_CR dat\<rparr>;
          man = parseName_p3 man;
          man = parseDesc_p3 man;
          man = parseSynopsis_p3 man
      in parseOpts_p3 man)"

text \<open>
  \<^verbatim>\<open>NewManPage\<close>. Opening the file, the gzip reader and reading it to the end
  are the loader, a parameter here: it gives the decompressed text of a path, or fails.
  The record starts as \<^verbatim>\<open>ManPage{Path: filename}\<close>, every other field empty.
  A failure of the loader ends the call (\<^verbatim>\<open>log.Fatal\<close> in goman.go, an error
  result in the later revision); a panic of the parser ends it too.
\<close>

datatype failure = LoadError | Panic panic

definition new_record :: "string \<Rightarrow> ManPage" where
  "new_record filename =
     \<lparr>Name = [], Path = filename, Desc = [], Synopsis = [], data = [], Opts = []\<rparr>"

definition NewManPage :: "(string \<Rightarrow> string option) \<Rightarrow> string \<Rightarrow> failure + ManPage" where
  "NewManPage load filename =
     (case load filename of
        None \<Rightarrow> Inl LoadError
      | Some dat \<Rightarrow>
          (case parse (new_record filename) dat of
             Inl p \<Rightarrow> Inl (Panic p)
           | Inr man \<Rightarrow> Inr man))"

definition NewManPage_p3 :: "(string \<Rightarrow> string option) \<Rightarrow> string \<Rightarrow> failure + ManPage" where
  "NewManPage_p3 load filename =
     (case load filename of
        None \<Rightarrow> Inl LoadError
      | Some dat \<Rightarrow>
          (case parse_p3 (new_record filename) dat of
             Inl p \<Rightarrow> Inl (Panic p)
           | Inr man \<Rightarrow> Inr man))"

subsection \<open>The sequence of macros\<close>

text \<open>
  The macros that repeated calls of \<^verbatim>\<open>nextMacro\<close> produce from a macro on:
  the iteration \<^verbatim>\<open>for ...; mc != nil; mc = m.nextMacro(mc)\<close> of both loops,
  without their exits.
\<close>

function macro_seq :: "string \<Rightarrow> Macro \<Rightarrow> Macro list" where
  "macro_seq d mc =
     mc # (case nextMacro d mc of None \<Rightarrow> [] | Some mc' \<Rightarrow> macro_seq d mc')"
  by pat_completeness auto
termination
proof (relation "measure (\<lambda>(d, mc). length d - loc1 mc)")
  show "wf (measure (\<lambda>(d, mc). length d - loc1 mc))" by simp
next
  fix d :: string and mc mc' :: Macro
  assume "nextMacro d mc = Some mc'"
  then have "nextMacroOffset d (loc1 mc) = Some mc'"
    by (simp add: nextMacro_def)
  from nextMacroOffset_bounds [OF this]
  have "length d - loc1 mc' < length d - loc1 mc" by arith
  then show "((d, mc'), (d, mc)) \<in> measure (\<lambda>(d, mc). length d - loc1 mc)"
    by simp
qed

declare macro_seq.simps [simp del]

subsection \<open>Example documents\<close>

text \<open>A document is written as its lines, each ended by a line feed.\<close>

definition unlines :: "string list \<Rightarrow> string" where
  "unlines ls = concat (map (\<lambda>l. l @ [NL]) ls)"

definition doc_macros :: string where
  "doc_macros = unlines [''.B -q'', ''.XY a .SH b'', ''.TP'', ''.SH END'']"

definition doc_dash_late :: string where
  "doc_dash_late = unlines [''.SH OPTIONS'', ''.B ab cd -q x'', ''.SH END'']"

definition doc_empty_line :: string where
  "doc_empty_line =
     unlines [''.SH OPTIONS'', ''.B '' @ [BSL] @ ''-q q is an option'', [], ''more text'',
              ''.SH END'']"

definition doc_dash_first :: string where
  "doc_dash_first = unlines [''.SH OPTIONS'', ''.B -q desc'', ''.SH END'']"


subsection \<open>Heading lines, in the words of the specification\<close>

text \<open>
  A heading line for a name: at a line start, \<^verbatim>\<open>.SH\<close>, any number \<open>k\<close> of
  spaces, and an alternative \<open>a\<close> of the name.
\<close>

definition line_start :: "string \<Rightarrow> nat \<Rightarrow> bool" where
  "line_start d p \<longleftrightarrow> p = 0 \<or> d ! (p - 1) = NL"

definition heading_at :: "string \<Rightarrow> string list \<Rightarrow> nat \<Rightarrow> nat \<Rightarrow> string \<Rightarrow> bool" where
  "heading_at d name p k a \<longleftrightarrow>
     p < length d \<and> line_start d p \<and> a \<in> set name
     \<and> prefix (''.SH'' @ replicate k SP @ a) (drop p d)"

section \<open>Properties\<close>

subsection \<open>Macro iteration\<close>

lemma macro_seq_increasing:
  "loc0 mc < loc1 mc \<Longrightarrow>
     sorted_wrt (\<lambda>a b. loc0 a < loc0 b) (macro_seq d mc)
     \<and> (\<forall>y \<in> set (macro_seq d mc). loc0 mc \<le> loc0 y)"
proof (induction d mc rule: macro_seq.induct)
  case (1 d mc)
  show ?case
  proof (cases "nextMacro d mc")
    case None
    then show ?thesis by (subst (1 2) macro_seq.simps) simp
  next
    case (Some mc')
    then have "nextMacroOffset d (loc1 mc) = Some mc'"
      by (simp add: nextMacro_def)
    from nextMacroOffset_bounds [OF this]
    have b: "loc1 mc \<le> loc0 mc'" "loc0 mc' < loc1 mc'" by simp_all
    from "1.IH" [OF Some b(2)]
    have ih: "sorted_wrt (\<lambda>a b. loc0 a < loc0 b) (macro_seq d mc')"
      "\<forall>y \<in> set (macro_seq d mc'). loc0 mc' \<le> loc0 y" by simp_all
    from ih(2) b(1) "1.prems" have "\<forall>y \<in> set (macro_seq d mc'). loc0 mc < loc0 y"
      by fastforce
    with ih(1) Some show ?thesis
      by (subst (1 2) macro_seq.simps) (auto intro: less_imp_le)
  qed
qed

text \<open>
  C6. For every macro \<open>mc\<close> that the scanner produces, \<^verbatim>\<open>nextMacro\<close> of it is
  \<^verbatim>\<open>nextMacroOffset\<close> at its end; a macro after it starts at or after its end;
  and the macros that repeated calls of \<^verbatim>\<open>nextMacro\<close> give have strictly
  increasing start offsets.
\<close>

theorem macro_iteration_monotonic:
  assumes "nextMacroOffset d offset = Some mc"
  shows "nextMacro d mc = nextMacroOffset d (loc1 mc)
         \<and> (\<forall>mc'. nextMacro d mc = Some mc' \<longrightarrow> loc1 mc \<le> loc0 mc')
         \<and> sorted_wrt (\<lambda>a b. loc0 a < loc0 b) (macro_seq d mc)"
proof -
  from nextMacroOffset_bounds [OF assms] have lt: "loc0 mc < loc1 mc" by simp
  have "\<forall>mc'. nextMacro d mc = Some mc' \<longrightarrow> loc1 mc \<le> loc0 mc'"
    using nextMacroOffset_bounds [of d "loc1 mc"] by (simp add: nextMacro_def)
  with macro_seq_increasing [OF lt, of d] show ?thesis
    by (simp add: nextMacro_def)
qed

theorem macro_iteration_monotonic_witness:
  "nextMacroOffset doc_macros 0 = Some \<lparr>loc0 = 0, loc1 = 3, mtype = B\<rparr>
   \<and> nextMacro doc_macros \<lparr>loc0 = 0, loc1 = 3, mtype = B\<rparr>
       = Some \<lparr>loc0 = 6, loc1 = 10, mtype = Unrecognized\<rparr>
   \<and> map loc0 (macro_seq doc_macros \<lparr>loc0 = 0, loc1 = 3, mtype = B\<rparr>) = [0, 6, 22]
   \<and> sorted_wrt (\<lambda>a b. loc0 a < loc0 b)
        (macro_seq doc_macros \<lparr>loc0 = 0, loc1 = 3, mtype = B\<rparr>)"
proof -
  have h: "nextMacroOffset doc_macros 0 = Some \<lparr>loc0 = 0, loc1 = 3, mtype = B\<rparr>"
    by code_simp
  have n: "nextMacro doc_macros \<lparr>loc0 = 0, loc1 = 3, mtype = B\<rparr>
             = Some \<lparr>loc0 = 6, loc1 = 10, mtype = Unrecognized\<rparr>"
    by code_simp
  have s: "map loc0 (macro_seq doc_macros \<lparr>loc0 = 0, loc1 = 3, mtype = B\<rparr>) = [0, 6, 22]"
    by code_simp
  from h n s macro_iteration_monotonic [OF h] show ?thesis by simp
qed

subsection \<open>Panics of the option parser\<close>

text \<open>
  C1. The claim: for every document, \<^verbatim>\<open>parse\<close> completes without raising an
  error. Evaluated at a page whose entry has its first dash at index 6 of the collected
  text (\<^verbatim>\<open>.B ab cd -q x\<close>): \<^verbatim>\<open>spc\<close> is 3 after the increment, the
  slice \<^verbatim>\<open>opt[6:3]\<close> is out of range, and both revisions panic.
\<close>

theorem parse_panics_on_late_dash:
  "parse (new_record []) doc_dash_late = Inl SliceBoundsOutOfRange
   \<and> parse_p3 (new_record []) doc_dash_late = Inl SliceBoundsOutOfRange"
  by code_simp

text \<open>
  C5. The claim: a line of length zero ends the collection of an entry's lines as a
  macro line does, and is never indexed. Evaluated at a page with an empty line after the
  first line of an entry: goman.go reads \<^verbatim>\<open>line[0]\<close> of the empty line and
  panics; the later revision stops the collection there and emits the option.
\<close>

theorem parseOpts_empty_line:
  "parse (new_record []) doc_empty_line = Inl IndexOutOfRange
   \<and> map_sum id Opts (parse_p3 (new_record []) doc_empty_line)
       = Inr [\<lparr>Opt.Name = ''-q'', Opt.Desc = ''q is an option''\<rparr>]"
  by code_simp

subsection \<open>The option token\<close>

text \<open>
  C2. The claim: the token is the text from the first dash up to, and without, the first
  white space after it. Evaluated at an entry whose collected text starts with the dash
  (\<^verbatim>\<open>.B -q desc\<close>): the token both revisions emit is \<^verbatim>\<open>opt[0:3]\<close>,
  the dash, the letter and the space after them.
\<close>

theorem token_keeps_space:
  "map_sum id Opts (parse (new_record []) doc_dash_first)
       = Inr [\<lparr>Opt.Name = ''-q '', Opt.Desc = ''desc''\<rparr>]
   \<and> map_sum id Opts (parse_p3 (new_record []) doc_dash_first)
       = Inr [\<lparr>Opt.Name = ''-q '', Opt.Desc = ''desc''\<rparr>]"
  by code_simp

subsection \<open>Section locator\<close>

lemma all_less_Suc_split: "(\<forall>j<Suc n. P j) \<longleftrightarrow> P 0 \<and> (\<forall>j<n. P (Suc j))"
  by (auto simp: less_Suc_eq_0_disj)

lemma FindStringIndex_None_iff:
  "FindStringIndex re bol i s = None \<longleftrightarrow>
     (\<forall>j<length s. (if j = 0 then bol else s ! (j - 1) = NL) \<longrightarrow> re (drop j s) = None)"
proof (induction s arbitrary: bol i)
  case Nil
  then show ?case by simp
next
  case (Cons c cs)
  have "FindStringIndex re bol i (c # cs) = None \<longleftrightarrow>
          (bol \<longrightarrow> re (c # cs) = None) \<and> FindStringIndex re (c = NL) (Suc i) cs = None"
    by (auto split: option.splits)
  also have "\<dots> \<longleftrightarrow> (bol \<longrightarrow> re (c # cs) = None)
      \<and> (\<forall>j<length cs. (if j = 0 then c = NL else cs ! (j - 1) = NL) \<longrightarrow> re (drop j cs) = None)"
    by (simp only: Cons.IH)
  also have "\<dots> \<longleftrightarrow> (\<forall>j<length (c # cs).
      (if j = 0 then bol else (c # cs) ! (j - 1) = NL) \<longrightarrow> re (drop j (c # cs)) = None)"
    unfolding length_Cons all_less_Suc_split
    by (intro conj_cong refl all_cong) (auto simp: nth_Cons')
  finally show ?case .
qed

lemma FindStringIndex_Some_least:
  "FindStringIndex re bol i s = Some (a, b) \<Longrightarrow>
     \<exists>j n. a = i + j \<and> b = i + j + n \<and> j < length s
       \<and> (if j = 0 then bol else s ! (j - 1) = NL) \<and> re (drop j s) = Some n
       \<and> (\<forall>j'<j. (if j' = 0 then bol else s ! (j' - 1) = NL) \<longrightarrow> re (drop j' s) = None)"
proof (induction s arbitrary: bol i)
  case Nil
  then show ?case by simp
next
  case (Cons c cs)
  show ?case
  proof (cases "if bol then re (c # cs) else None")
    case (Some n)
    with Cons.prems have "a = i" "b = i + n" by auto
    moreover from Some have "bol" "re (c # cs) = Some n" by (auto split: if_splits)
    ultimately have "a = i + 0 \<and> b = i + 0 + n \<and> 0 < length (c # cs)
       \<and> (if (0::nat) = 0 then bol else (c # cs) ! (0 - 1) = NL)
       \<and> re (drop 0 (c # cs)) = Some n
       \<and> (\<forall>j'<0. (if j' = 0 then bol else (c # cs) ! (j' - 1) = NL)
             \<longrightarrow> re (drop j' (c # cs)) = None)"
      by simp
    then show ?thesis by blast
  next
    case None
    with Cons.prems have "FindStringIndex re (c = NL) (Suc i) cs = Some (a, b)" by simp
    from Cons.IH [OF this] obtain j n where
      j: "a = Suc i + j" "b = Suc i + j + n" "j < length cs"
         "if j = 0 then c = NL else cs ! (j - 1) = NL" "re (drop j cs) = Some n"
         "\<forall>j'<j. (if j' = 0 then c = NL else cs ! (j' - 1) = NL) \<longrightarrow> re (drop j' cs) = None"
      by blast
    from None have n0: "bol \<longrightarrow> re (c # cs) = None" by (auto split: if_splits)
    have "\<forall>j'<Suc j. (if j' = 0 then bol else (c # cs) ! (j' - 1) = NL)
            \<longrightarrow> re (drop j' (c # cs)) = None"
      unfolding all_less_Suc_split using n0 j(6) by (auto simp: nth_Cons')
    with j have "a = i + Suc j \<and> b = i + Suc j + n \<and> Suc j < length (c # cs)
       \<and> (if Suc j = 0 then bol else (c # cs) ! (Suc j - 1) = NL)
       \<and> re (drop (Suc j) (c # cs)) = Some n
       \<and> (\<forall>j'<Suc j. (if j' = 0 then bol else (c # cs) ! (j' - 1) = NL)
             \<longrightarrow> re (drop j' (c # cs)) = None)"
      by (auto simp: nth_Cons')
    then show ?thesis by blast
  qed
qed


lemma prefix_replicate_takeWhile:
  "prefix (replicate k c) xs \<longleftrightarrow> k \<le> length (takeWhile (\<lambda>x. x = c) xs)"
proof (induction xs arbitrary: k)
  case Nil
  then show ?case by simp
next
  case (Cons x xs)
  then show ?case by (cases k) auto
qed

lemma prefix_append_drop:
  "prefix (u @ v) xs \<longleftrightarrow> prefix u xs \<and> prefix v (drop (length u) xs)"
  by (auto simp: prefix_def)

lemma section_ends_iff:
  "e \<in> set (section_ends name rest) \<longleftrightarrow>
     (\<exists>k a. a \<in> set name \<and> prefix (replicate k SP @ a) rest \<and> e = 3 + k + length a)"
proof -
  define n where "n = length (takeWhile (\<lambda>c. c = SP) rest)"
  have "e \<in> set (section_ends name rest) \<longleftrightarrow>
          (\<exists>k\<in>set [0 ..< Suc n]. \<exists>a\<in>set name. prefix a (drop k rest) \<and> e = 3 + k + length a)"
    unfolding section_ends_def n_def [symmetric] set_concat set_map
    by (auto simp del: upt_Suc)
  also have "\<dots> \<longleftrightarrow> (\<exists>k a. a \<in> set name \<and> k \<le> n \<and> prefix a (drop k rest)
                          \<and> e = 3 + k + length a)"
    unfolding set_upt Bex_def atLeastLessThan_iff less_Suc_eq_le by blast
  also have "\<dots> \<longleftrightarrow> (\<exists>k a. a \<in> set name \<and> prefix (replicate k SP @ a) rest
                          \<and> e = 3 + k + length a)"
    unfolding prefix_append_drop prefix_replicate_takeWhile n_def by auto
  finally show ?thesis .
qed

lemma fold_max_Max: "fold max es (e::nat) = Max (set (e # es))"
  by (rule Max.set_eq_fold [symmetric])

lemma section_re_Some_iff:
  "section_re name s = Some n \<longleftrightarrow>
     prefix ''.SH'' s \<and> n \<in> set (section_ends name (drop 3 s))
     \<and> (\<forall>e \<in> set (section_ends name (drop 3 s)). e \<le> n)"
proof (cases "section_ends name (drop 3 s)")
  case Nil
  then show ?thesis by (simp add: section_re_def)
next
  case (Cons e es)
  have fin: "finite (set (e # es))" and ne: "set (e # es) \<noteq> {}" by simp_all
  have "Max (set (e # es)) \<in> set (e # es)"
    using Max_in [OF fin ne] .
  moreover have "\<forall>x \<in> set (e # es). x \<le> Max (set (e # es))"
    using Max_ge [OF fin] by blast
  moreover have "\<And>n. n \<in> set (e # es) \<Longrightarrow> \<forall>x \<in> set (e # es). x \<le> n \<Longrightarrow> n = Max (set (e # es))"
    using Max_eqI [OF fin] by (metis)
  ultimately show ?thesis
    unfolding section_re_def Cons fold_max_Max by (auto simp del: set_simps Max.set_eq_fold)
qed

lemma section_re_None_iff:
  "section_re name s = None \<longleftrightarrow> \<not> prefix ''.SH'' s \<or> section_ends name (drop 3 s) = []"
  by (auto simp: section_re_def split: list.splits)

end
